theory Spec2Isabelle
  imports Complex_Main "HOL-Library.Word"
begin

section \<open>The draw-call batch of the renderer (engine/renderer/batch.cpp)\<close>

text \<open>
  The theory embeds \<^verbatim>\<open>Batch\<close> of \<^verbatim>\<open>batch.cpp\<close>: the constructor,
  \<^verbatim>\<open>updateMesh\<close>, \<^verbatim>\<open>add\<close>, \<^verbatim>\<open>clearData\<close>, \<^verbatim>\<open>isRenderModified\<close>,
  \<^verbatim>\<open>resetBatch\<close>, \<^verbatim>\<open>meshInit\<close>, \<^verbatim>\<open>setupMesh\<close> and
  \<^verbatim>\<open>regenerateMeshData\<close>. The objects the batch works on (meshes, render data, their
  owner objects, materials) are declared in headers that are not among the sources; they
  are modelled by the fields and accessors that \<^verbatim>\<open>batch.cpp\<close> calls.
\<close>

subsection \<open>Geometry payload\<close>

text \<open>
  \<^verbatim>\<open>glm::vec3\<close>, \<^verbatim>\<open>glm::vec2\<close> and \<^verbatim>\<open>glm::mat4\<close> are only copied by the batch,
  never computed with; their components are kept as numbers.
\<close>

datatype vec3 = Vec3 real real real
datatype vec2 = Vec2 real real
datatype mat4 = Mat4 "real list"

text \<open>
  Modelled from the spec: the value of a default-constructed \<^verbatim>\<open>glm::mat4\<close>
  (\<^verbatim>\<open>glm::mat4 model_matrix;\<close>), which the specification takes to be the identity
  matrix; the glm headers are not among the sources.
\<close>

definition mat4_default :: mat4 where
  "mat4_default = Mat4 [1, 0, 0, 0,  0, 1, 0, 0,  0, 0, 1, 0,  0, 0, 0, 1]"

subsection \<open>Collaborators: mesh, material, render data\<close>

text \<open>
  A mesh as \<^verbatim>\<open>batch.cpp\<close> reads and writes it: \<^verbatim>\<open>indices()\<close> is a vector of
  \<^verbatim>\<open>unsigned short\<close>, \<^verbatim>\<open>vertices()\<close> and \<^verbatim>\<open>normals()\<close> are vectors of
  \<^verbatim>\<open>vec3\<close>, \<^verbatim>\<open>getVec2Vector("a_texcoord")\<close> is a vector of \<^verbatim>\<open>vec2\<close>, and
  \<^verbatim>\<open>setFloatVector("a_matrix_index", ...)\<close> stores the per-vertex draw slots (whole
  numbers held in floats; kept as naturals here).
\<close>

record mesh =
  m_indices :: "16 word list"
  m_vertices :: "vec3 list"
  m_normals :: "vec3 list"
  m_texcoord :: "vec2 list"
  m_matrix_index :: "nat list"

definition empty_mesh :: mesh where
  "empty_mesh = \<lparr>m_indices = [], m_vertices = [], m_normals = [], m_texcoord = [],
     m_matrix_index = []\<rparr>"

text \<open>
  Modelled from the spec: the enumerators of \<^verbatim>\<open>Material::ShaderType\<close> (material.h is
  not among the sources). Only the texture-only technique is mergeable; every other
  technique is an \<open>OTHER_SHADER\<close>.
\<close>

datatype shader_type = TEXTURE_SHADER | OTHER_SHADER nat

text \<open>A material is the address of the \<^verbatim>\<open>Material\<close> object and its shader type.\<close>

record material =
  mat_ptr :: nat
  shader_type :: shader_type

text \<open>
  A \<^verbatim>\<open>RenderData\<close> together with the parts of its owner object that the batch reads:
  \<^verbatim>\<open>mesh()\<close>, the materials of its passes (\<^verbatim>\<open>pass(i)->material()\<close>,
  \<^verbatim>\<open>pass_count()\<close>), \<^verbatim>\<open>batching()\<close>, the batch back-reference cleared by
  \<^verbatim>\<open>setBatchNull()\<close>, \<^verbatim>\<open>enabled()\<close>, the flag written by
  \<^verbatim>\<open>set_renderdata_dirty\<close>, and of the owner \<^verbatim>\<open>enabled()\<close>, \<^verbatim>\<open>transform()\<close>
  (\<open>None\<close> for \<^verbatim>\<open>NULL\<close>, else its model matrix) and the flag cleared by
  \<^verbatim>\<open>setTransformUnDirty()\<close>.
\<close>

record render_data =
  rd_mesh :: mesh
  rd_passes :: "material list"
  rd_batching :: bool
  rd_batch :: "nat option"
  rd_enabled :: bool
  rd_dirty :: bool
  owner_enabled :: bool
  owner_transform :: "mat4 option"
  owner_transform_dirty :: bool

type_synonym rd_ptr = nat
type_synonym rd_heap = "rd_ptr \<Rightarrow> render_data"

subsection \<open>The batch\<close>

text \<open>
  The members of \<^verbatim>\<open>Batch\<close>. Counters and capacities are \<^verbatim>\<open>int\<close> in the
  constructor's signature; they only count upwards from 0 and are kept as naturals (no
  overflow of the counters, capacities not negative). \<open>render_data_set\<close> is the
  container of tracked render data: the duplicate-free sequence of its elements, in the
  order in which the loops over it visit them. The container's declaration is in batch.h;
  which order an insertion leaves is a parameter of the model (\<open>w_rank\<close> below). \<open>renderdata\<close> is the owned prototype (\<open>None\<close> for
  \<^verbatim>\<open>nullptr\<close>), \<open>batch_mesh\<close> the member \<^verbatim>\<open>mesh_\<close>, \<open>material\<close> the member
  \<^verbatim>\<open>material_\<close> (\<open>None\<close> before the first assignment).
\<close>

record batch =
  draw_count :: nat
  vertex_count :: nat
  index_count :: nat
  vertex_limit :: nat
  indices_limit :: nat
  renderdata :: "render_data option"
  mesh_init :: bool
  index_offset :: nat
  not_batched :: bool
  batch_dirty :: bool
  vertices :: "vec3 list"
  indices :: "16 word list"
  normals :: "vec3 list"
  tex_coords :: "vec2 list"
  matrix_indices :: "nat list"
  matrices :: "mat4 list"
  matrix_index_map :: "rd_ptr \<rightharpoonup> nat"
  render_data_set :: "rd_ptr list"
  material :: "material option"
  batch_mesh :: mesh

text \<open>
  The state the operations run in: the batch, the render data objects by address, the
  number of \<^verbatim>\<open>gRenderer->freeBatch(this)\<close> notifications the pool owner has received,
  and the iteration order of the container \<^verbatim>\<open>render_data_set_\<close>: \<open>w_rank s p\<close> is the
  rank at which a loop over the container, once it holds the elements \<open>s\<close>, visits the
  element \<open>p\<close>. For a \<^verbatim>\<open>std::set\<close> of pointers it is the address \<open>p\<close> itself, for a
  hashed set whatever its buckets give. No operation writes it.
\<close>

record world =
  w_batch :: batch
  w_heap :: rd_heap
  w_freed :: nat
  w_rank :: "rd_ptr list \<Rightarrow> rd_ptr \<Rightarrow> nat"

text \<open>
  What the C++ leaves undefined and the model makes a value: \<^verbatim>\<open>pass(0)->material()\<close>
  on render data without a pass, and \<^verbatim>\<open>tex_cords[i]\<close> beyond the end of the texture
  coordinates.
\<close>

datatype fault = NoRenderPass | TexcoordOutOfRange

text \<open>\<^verbatim>\<open>Batch::Batch(int no_vertices, int no_indices)\<close>\<close>

definition Batch :: "nat \<Rightarrow> nat \<Rightarrow> batch" where
  "Batch no_vertices no_indices =
     \<lparr>draw_count = 0, vertex_count = 0, index_count = 0, vertex_limit = no_vertices,
      indices_limit = no_indices, renderdata = None, mesh_init = False, index_offset = 0,
      not_batched = False, batch_dirty = False,
      vertices = [], indices = [], normals = [], tex_coords = [], matrix_indices = [],
      matrices = [], matrix_index_map = Map.empty, render_data_set = [], material = None,
      batch_mesh = empty_mesh\<rparr>"

text \<open>
  \<^verbatim>\<open>render_data_set_.insert(render_data)\<close>: nothing happens when the element is there;
  otherwise the container holds the old elements and the new one, in the order of their
  ranks. Every order of these elements is the result for some \<open>rank\<close>, also one that
  moves the old elements, as a hashed set does when it grows.
\<close>

definition set_insert :: "(rd_ptr list \<Rightarrow> rd_ptr \<Rightarrow> nat) \<Rightarrow> rd_ptr \<Rightarrow> rd_ptr list \<Rightarrow> rd_ptr list" where
  "set_insert rank r s = (if r \<in> set s then s else sort_key (rank (s @ [r])) (s @ [r]))"

text \<open>
  \<^verbatim>\<open>Batch::updateMesh\<close>, loop by loop. The first loop reads \<^verbatim>\<open>vertices[i]\<close> and
  \<^verbatim>\<open>tex_cords[i]\<close> for every vertex; it runs over both sequences from the front and
  faults where the texture coordinates end before the vertices do. The second appends the
  normals. The third adds \<^verbatim>\<open>index_offset_\<close> to each index, an addition on
  \<^verbatim>\<open>unsigned short\<close>, and appends the sum.
\<close>

fun vertex_loop :: "vec3 list \<Rightarrow> vec2 list \<Rightarrow> batch \<Rightarrow> fault + batch" where
  "vertex_loop [] tex_cords b = Inr b"
| "vertex_loop (v # vs) [] b = Inl TexcoordOutOfRange"
| "vertex_loop (v # vs) (t # ts) b =
     vertex_loop vs ts (b\<lparr>vertices := vertices b @ [v],
                          matrix_indices := matrix_indices b @ [draw_count b],
                          tex_coords := tex_coords b @ [t]\<rparr>)"

fun normal_loop :: "vec3 list \<Rightarrow> batch \<Rightarrow> batch" where
  "normal_loop [] b = b"
| "normal_loop (n # ns) b = normal_loop ns (b\<lparr>normals := normals b @ [n]\<rparr>)"

fun index_loop :: "16 word list \<Rightarrow> batch \<Rightarrow> batch" where
  "index_loop [] b = b"
| "index_loop (index # rest) b =
     index_loop rest (b\<lparr>indices := indices b @ [index + of_nat (index_offset b)]\<rparr>)"

text \<open>
  The function is declared \<^verbatim>\<open>bool\<close> and has no \<^verbatim>\<open>return\<close>; its callers ignore the
  result, and so does the model.
\<close>

definition updateMesh :: "mesh \<Rightarrow> batch \<Rightarrow> fault + batch" where
  "updateMesh render_mesh b =
     (let indices' = m_indices render_mesh;
          vertices' = m_vertices render_mesh;
          normals' = m_normals render_mesh;
          tex_cords = m_texcoord render_mesh
      in case vertex_loop vertices' tex_cords b of
           Inl f \<Rightarrow> Inl f
         | Inr b1 \<Rightarrow>
            (let b2 = (if length normals' > 0 then normal_loop normals' b1 else b1);
                 b3 = b2\<lparr>index_count := index_count b2 + length indices'\<rparr>;
                 b4 = index_loop indices' b3
             in Inr (b4\<lparr>vertex_count := vertex_count b4 + length vertices',
                        index_offset := index_offset b4 + length vertices',
                        draw_count := draw_count b4 + 1,
                        mesh_init := False\<rparr>)))"

text \<open>The model matrix that \<^verbatim>\<open>add\<close> and \<^verbatim>\<open>regenerateMeshData\<close> resolve.\<close>

definition model_matrix_of :: "render_data \<Rightarrow> mat4" where
  "model_matrix_of rd = (case owner_transform rd of None \<Rightarrow> mat4_default | Some m \<Rightarrow> m)"

text \<open>
  \<^verbatim>\<open>Batch::add\<close>. The call \<^verbatim>\<open>render_data->getHashCode()\<close>, whose result is dropped,
  writes nothing that the batch reads and is left out. The prototype
  \<^verbatim>\<open>new RenderData(*render_data)\<close> is the value of the render data at that point of the
  call.
\<close>

definition add :: "rd_ptr \<Rightarrow> world \<Rightarrow> fault + (bool \<times> world)" where
  "add render_data w =
     (let b = w_batch w; h = w_heap w; rd = h render_data in
      case rd_passes rd of
        [] \<Rightarrow> Inl NoRenderPass
      | pass0 # _ \<Rightarrow>
         (let render_mesh = rd_mesh rd;
              indices' = m_indices render_mesh;
              model_matrix = model_matrix_of rd;
              rd1 = rd\<lparr>rd_dirty := False, owner_transform_dirty := False\<rparr>;
              h1 = h(render_data := rd1);
              b1 = b\<lparr>material := Some pass0,
                     matrix_index_map := (matrix_index_map b)(render_data \<mapsto> draw_count b),
                     matrices := matrices b @ [model_matrix]\<rparr>
          in if \<not> rd_batching rd1 then
               Inr (True, w\<lparr>w_batch := b1\<lparr>render_data_set := set_insert (w_rank w) render_data (render_data_set b1),
                                         not_batched := True\<rparr>,
                             w_heap := h1\<rparr>)
             else if list_ex (\<lambda>mat. shader_type mat \<noteq> TEXTURE_SHADER) (rd_passes rd1) then
               Inr (True, w\<lparr>w_batch := b1\<lparr>render_data_set := set_insert (w_rank w) render_data (render_data_set b1)\<rparr>,
                             w_heap := h1\<rparr>)
             else if length indices' = 0 \<or> length indices' + index_count b1 > indices_limit b1 then
               (if draw_count b1 > 0 then
                  Inr (False, w\<lparr>w_batch := b1, w_heap := h1\<rparr>)
                else
                  Inr (True, w\<lparr>w_batch := b1\<lparr>render_data_set := set_insert (w_rank w) render_data (render_data_set b1),
                                            not_batched := True\<rparr>,
                                w_heap := h1(render_data := rd1\<lparr>rd_batching := False\<rparr>)\<rparr>))
             else
               (let b2 = (if draw_count b1 = 0 \<and> renderdata b1 = None
                          then b1\<lparr>renderdata := Some (rd1\<lparr>rd_batching := True\<rparr>)\<rparr> else b1);
                    b3 = b2\<lparr>render_data_set := set_insert (w_rank w) render_data (render_data_set b2)\<rparr>
                in case updateMesh render_mesh b3 of
                     Inl f \<Rightarrow> Inl f
                   | Inr b4 \<Rightarrow> Inr (True, w\<lparr>w_batch := b4, w_heap := h1\<rparr>))))"

text \<open>\<^verbatim>\<open>Batch::clearData\<close>\<close>

definition clearData :: "batch \<Rightarrow> batch" where
  "clearData b = b\<lparr>vertex_count := 0, index_count := 0, index_offset := 0, draw_count := 0,
     matrix_index_map := Map.empty, matrix_indices := [], matrices := [], tex_coords := [],
     vertices := [], normals := [], indices := [], mesh_init := False, batch_dirty := False\<rparr>"

text \<open>
  \<^verbatim>\<open>Batch::isRenderModified\<close>: the loop over the tracked render data, erasing those
  that are disabled or whose owner is. It returns the elements kept, the heap and
  \<^verbatim>\<open>update_vbo\<close>.
\<close>

fun evict_loop :: "rd_ptr list \<Rightarrow> rd_heap \<Rightarrow> bool \<Rightarrow> rd_ptr list \<times> rd_heap \<times> bool" where
  "evict_loop [] h update_vbo = ([], h, update_vbo)"
| "evict_loop (it # rest) h update_vbo =
     (if \<not> rd_enabled (h it) \<or> \<not> owner_enabled (h it) then
        evict_loop rest (h(it := (h it)\<lparr>rd_batching := False, rd_batch := None\<rparr>)) True
      else
        (case evict_loop rest h update_vbo of (kept, h', u) \<Rightarrow> (it # kept, h', u)))"

definition isRenderModified :: "world \<Rightarrow> bool \<times> world" where
  "isRenderModified w =
     (case evict_loop (render_data_set (w_batch w)) (w_heap w) False of
        (kept, h', update_vbo) \<Rightarrow>
          (update_vbo, w\<lparr>w_batch := (w_batch w)\<lparr>render_data_set := kept\<rparr>, w_heap := h'\<rparr>))"

text \<open>\<^verbatim>\<open>Batch::resetBatch\<close>\<close>

definition resetBatch :: "world \<Rightarrow> world" where
  "resetBatch w = w\<lparr>w_batch := (clearData (w_batch w))\<lparr>renderdata := None\<rparr>,
                     w_freed := w_freed w + 1\<rparr>"

text \<open>
  \<^verbatim>\<open>Batch::meshInit\<close>. \<^verbatim>\<open>renderdata_->set_mesh(&mesh_)\<close> makes the prototype's mesh
  the batch's own; \<^verbatim>\<open>mesh_\<close> is written nowhere else, so the prototype holds its value.
\<close>

definition meshInit :: "batch \<Rightarrow> batch" where
  "meshInit b =
     (let mesh' = (batch_mesh b)\<lparr>m_vertices := vertices b, m_normals := normals b,
                     m_texcoord := tex_coords b, m_indices := indices b,
                     m_matrix_index := matrix_indices b\<rparr>
      in b\<lparr>mesh_init := True, batch_mesh := mesh',
           renderdata := (case renderdata b of None \<Rightarrow> None
                          | Some p \<Rightarrow> Some (p\<lparr>rd_mesh := mesh'\<rparr>))\<rparr>)"

text \<open>\<^verbatim>\<open>Batch::regenerateMeshData\<close>: the loop, then the function.\<close>

fun regen_loop :: "rd_ptr list \<Rightarrow> rd_heap \<Rightarrow> batch \<Rightarrow> fault + batch" where
  "regen_loop [] h b = Inr b"
| "regen_loop (render_data # rest) h b =
     (let render_mesh = rd_mesh (h render_data);
          model_matrix = model_matrix_of (h render_data);
          b1 = b\<lparr>matrix_index_map := (matrix_index_map b)(render_data \<mapsto> draw_count b),
                 matrices := matrices b @ [model_matrix]\<rparr>
      in case updateMesh render_mesh b1 of
           Inl f \<Rightarrow> Inl f
         | Inr b2 \<Rightarrow> regen_loop rest h b2)"

definition regenerateMeshData :: "rd_heap \<Rightarrow> batch \<Rightarrow> fault + batch" where
  "regenerateMeshData h b = (let b0 = clearData b in regen_loop (render_data_set b0) h b0)"

text \<open>\<^verbatim>\<open>Batch::setupMesh\<close>\<close>

definition setupMesh :: "bool \<Rightarrow> world \<Rightarrow> fault + (bool \<times> world)" where
  "setupMesh batch_dirty' w =
     (case isRenderModified w of
        (update_vbo, w1) \<Rightarrow>
          if length (render_data_set (w_batch w1)) = 0 then Inr (False, resetBatch w1)
          else
            (case (if batch_dirty' \<or> update_vbo then regenerateMeshData (w_heap w1) (w_batch w1)
                   else Inr (w_batch w1)) of
               Inl f \<Rightarrow> Inl f
             | Inr b2 \<Rightarrow>
                 (let b3 = b2\<lparr>batch_dirty := False\<rparr>;
                      b4 = (if \<not> mesh_init b3 then meshInit b3 else b3)
                  in Inr (True, w1\<lparr>w_batch := b4\<rparr>))))"

subsection \<open>A small scene\<close>

text \<open>Meshes and render data that the examples below run the operations on.\<close>

definition quad :: mesh where
  "quad = \<lparr>m_indices = [0, 1, 2, 0, 2, 3],
           m_vertices = [Vec3 0 0 0, Vec3 1 0 0, Vec3 1 1 0, Vec3 0 1 0],
           m_normals = [],
           m_texcoord = [Vec2 0 0, Vec2 1 0, Vec2 1 1, Vec2 0 1],
           m_matrix_index = []\<rparr>"

definition stray :: mesh where
  "stray = \<lparr>m_indices = [65535], m_vertices = [Vec3 2 2 2], m_normals = [],
            m_texcoord = [Vec2 0 0], m_matrix_index = []\<rparr>"

definition big :: mesh where
  "big = \<lparr>m_indices = [0, 1, 2, 0, 2, 3, 4, 5, 6, 4, 6, 7],
          m_vertices = [Vec3 0 0 0, Vec3 1 0 0, Vec3 1 1 0, Vec3 0 1 0,
                        Vec3 0 0 1, Vec3 1 0 1, Vec3 1 1 1, Vec3 0 1 1],
          m_normals = [Vec3 0 0 (-1), Vec3 0 0 (-1), Vec3 0 0 (-1), Vec3 0 0 (-1),
                       Vec3 0 0 1, Vec3 0 0 1, Vec3 0 0 1, Vec3 0 0 1],
          m_texcoord = [Vec2 0 0, Vec2 1 0, Vec2 1 1, Vec2 0 1,
                        Vec2 0 0, Vec2 1 0, Vec2 1 1, Vec2 0 1],
          m_matrix_index = []\<rparr>"

text \<open>
  \<open>renderable m mp\<close> is a render data object that is enabled, eligible for batching and
  has one texture-shader pass, whose material is at address \<open>mp\<close>. In \<open>scene\<close> the
  object at address 2 has opted out of batching and its owner has a transform, the one at
  address 3 has the mesh \<open>big\<close> of 12 indices, the one at address 4 has a pass with
  another shader, and every other address holds an object with the mesh \<open>quad\<close>
  (6 indices, 4 vertices). \<open>world0 nv ni h\<close> is a batch just constructed with
  capacities \<open>nv\<close> and \<open>ni\<close>, in front of the objects \<open>h\<close>, its container ordered by
  address; \<open>disable p\<close> is the
  scene disabling the render data at \<open>p\<close> between two calls.
\<close>

definition renderable :: "mesh \<Rightarrow> nat \<Rightarrow> render_data" where
  "renderable m mp = \<lparr>rd_mesh = m, rd_passes = [\<lparr>mat_ptr = mp, shader_type = TEXTURE_SHADER\<rparr>],
     rd_batching = True, rd_batch = None, rd_enabled = True, rd_dirty = True,
     owner_enabled = True, owner_transform = None, owner_transform_dirty = True\<rparr>"

definition scene :: rd_heap where
  "scene = (\<lambda>p. renderable quad p)
     (2 := (renderable quad 2)\<lparr>rd_batching := False,
             owner_transform := Some (Mat4 [2, 0, 0, 0,  0, 2, 0, 0,  0, 0, 2, 0,  0, 0, 0, 1])\<rparr>,
      3 := renderable big 3,
      4 := (renderable quad 4)\<lparr>rd_passes := [\<lparr>mat_ptr = 4, shader_type = OTHER_SHADER 0\<rparr>]\<rparr>)"

definition world0 :: "nat \<Rightarrow> nat \<Rightarrow> rd_heap \<Rightarrow> world" where
  "world0 nv ni h = \<lparr>w_batch = Batch nv ni, w_heap = h, w_freed = 0, w_rank = (\<lambda>s p. p)\<rparr>"

definition disable :: "rd_ptr \<Rightarrow> world \<Rightarrow> world" where
  "disable p w = w\<lparr>w_heap := (w_heap w)(p := (w_heap w p)\<lparr>rd_enabled := False\<rparr>)\<rparr>"

subsection \<open>Sequences of calls\<close>

text \<open>
  \<open>adds\<close> offers the render data at the given addresses to the batch one after the
  other, whatever each call returns; \<open>merges\<close> runs \<^verbatim>\<open>updateMesh\<close> on a sequence of
  meshes. Both stop at the first fault.
\<close>

fun adds :: "rd_ptr list \<Rightarrow> world \<Rightarrow> fault + world" where
  "adds [] w = Inr w"
| "adds (r # rs) w = (case add r w of Inl f \<Rightarrow> Inl f | Inr (ok, w') \<Rightarrow> adds rs w')"

fun merges :: "mesh list \<Rightarrow> batch \<Rightarrow> fault + batch" where
  "merges [] b = Inr b"
| "merges (m # ms) b = (case updateMesh m b of Inl f \<Rightarrow> Inl f | Inr b' \<Rightarrow> merges ms b')"

text \<open>
  What the merge step reads and writes of a batch: the four counters and the five merged
  buffers.
\<close>

definition merge_state ::
  "batch \<Rightarrow> nat \<times> nat \<times> nat \<times> nat \<times> vec3 list \<times> 16 word list \<times> vec3 list \<times> vec2 list \<times> nat list" where
  "merge_state b = (draw_count b, vertex_count b, index_count b, index_offset b,
     vertices b, indices b, normals b, tex_coords b, matrix_indices b)"

section \<open>Properties\<close>

subsection \<open>The merge step\<close>

lemma unat_add_of_nat16: "unat ((x :: 16 word) + of_nat n) = (unat x + n) mod 2 ^ 16"
  by (simp add: unat_word_ariths unat_of_nat mod_add_right_eq)

lemma vertex_loop_eq:
  "vertex_loop vs ts b =
     (if length ts < length vs then Inl TexcoordOutOfRange
      else Inr (b\<lparr>vertices := vertices b @ vs,
                  matrix_indices := matrix_indices b @ replicate (length vs) (draw_count b),
                  tex_coords := tex_coords b @ take (length vs) ts\<rparr>))"
proof (induction vs ts b rule: vertex_loop.induct)
  case (1 tex_cords b)
  show ?case by simp
next
  case (2 v vs b)
  show ?case by simp
next
  case (3 v vs t ts b)
  then show ?case by (simp add: replicate_append_same)
qed

lemma normal_loop_eq: "normal_loop ns b = b\<lparr>normals := normals b @ ns\<rparr>"
  by (induction ns arbitrary: b) simp_all

lemma index_loop_eq:
  "index_loop ixs b =
     b\<lparr>indices := indices b @ map (\<lambda>index. index + of_nat (index_offset b)) ixs\<rparr>"
  by (induction ixs arbitrary: b) simp_all

lemma updateMesh_Inr_iff:
  "updateMesh m b = Inr b' \<longleftrightarrow>
     length (m_vertices m) \<le> length (m_texcoord m) \<and>
     b' = b\<lparr>vertices := vertices b @ m_vertices m,
           matrix_indices := matrix_indices b @ replicate (length (m_vertices m)) (draw_count b),
           tex_coords := tex_coords b @ take (length (m_vertices m)) (m_texcoord m),
           normals := normals b @ m_normals m,
           index_count := index_count b + length (m_indices m),
           indices := indices b @ map (\<lambda>index. index + of_nat (index_offset b)) (m_indices m),
           vertex_count := vertex_count b + length (m_vertices m),
           index_offset := index_offset b + length (m_vertices m),
           draw_count := draw_count b + 1,
           mesh_init := False\<rparr>"
  by (auto simp: updateMesh_def Let_def vertex_loop_eq normal_loop_eq index_loop_eq)

lemma updateMesh_Inl_iff:
  "updateMesh m b = Inl f \<longleftrightarrow> length (m_texcoord m) < length (m_vertices m) \<and> f = TexcoordOutOfRange"
  by (auto simp: updateMesh_def Let_def vertex_loop_eq)

lemma updateMesh_indices:
  "updateMesh m b = Inr b' \<Longrightarrow>
   indices b' = indices b @ map (\<lambda>index. index + of_nat (index_offset b)) (m_indices m)"
  by (simp add: updateMesh_Inr_iff)

text \<open>
  C10. Each appended index is computed in 16-bit unsigned arithmetic: the value stored for
  the \<open>j\<close>-th source index is (source index + \<open>index_offset\<close>) modulo \<open>2 ^ 16\<close>, and
  where the sum reaches 65536 the stored index is smaller than the position it was meant
  to address.
\<close>

theorem updateMesh_index_16bit:
  assumes "updateMesh render_mesh b = Inr b'" and "j < length (m_indices render_mesh)"
  shows "unat (indices b' ! (length (indices b) + j)) =
           (unat (m_indices render_mesh ! j) + index_offset b) mod 2 ^ 16 \<and>
         (2 ^ 16 \<le> unat (m_indices render_mesh ! j) + index_offset b \<longrightarrow>
            unat (indices b' ! (length (indices b) + j)) <
              unat (m_indices render_mesh ! j) + index_offset b)"
proof -
  have "indices b' ! (length (indices b) + j) = m_indices render_mesh ! j + of_nat (index_offset b)"
    using assms by (simp add: updateMesh_indices nth_append)
  then have eq: "unat (indices b' ! (length (indices b) + j)) =
           (unat (m_indices render_mesh ! j) + index_offset b) mod 2 ^ 16"
    by (simp add: unat_add_of_nat16)
  moreover have "(unat (m_indices render_mesh ! j) + index_offset b) mod 2 ^ 16 < (2::nat) ^ 16"
    by simp
  ultimately show ?thesis by linarith
qed

theorem updateMesh_index_16bit_witness:
  "\<exists>b1 b2. updateMesh quad (Batch 6 10) = Inr b1 \<and> updateMesh stray b1 = Inr b2 \<and>
     index_offset b1 = 4 \<and> unat (m_indices stray ! 0) = 65535 \<and>
     unat (indices b2 ! 6) = 3 \<and> vertex_count b2 = 5"
proof -
  obtain b1 where b1: "updateMesh quad (Batch 6 10) = Inr b1"
    by (simp add: updateMesh_def quad_def Let_def)
  obtain b2 where b2: "updateMesh stray b1 = Inr b2"
    by (simp add: updateMesh_def stray_def Let_def)
  have off: "index_offset b1 = 4" and len: "length (indices b1) = 6" and vc1: "vertex_count b1 = 4"
    using b1 by (auto simp: updateMesh_def quad_def Batch_def Let_def)
  have vc: "vertex_count b2 = 5"
    using b2 vc1 by (auto simp: updateMesh_def stray_def Let_def)
  have src: "unat (m_indices stray ! 0) = 65535"
    by (simp add: stray_def)
  have j: "0 < length (m_indices stray)"
    by (simp add: stray_def)
  from updateMesh_index_16bit [OF b2 j] have "unat (indices b2 ! 6) = 3"
    by (simp add: off len src)
  with b1 b2 off src vc show ?thesis by blast
qed

lemmas eval_defs = add_def updateMesh_def Let_def set_insert_def model_matrix_of_def
  scene_def renderable_def quad_def big_def Batch_def world0_def

lemma updateMesh_indices_in_range:
  assumes step: "updateMesh m b = Inr b'"
    and src: "\<forall>i\<in>set (m_indices m). unat i < length (m_vertices m)"
    and off: "index_offset b \<le> vertex_count b"
    and old: "\<forall>i\<in>set (indices b). unat i < vertex_count b"
  shows "(\<forall>i\<in>set (indices b'). unat i < vertex_count b') \<and> index_offset b' \<le> vertex_count b'"
proof -
  have vc: "vertex_count b' = vertex_count b + length (m_vertices m)"
    and io: "index_offset b' = index_offset b + length (m_vertices m)"
    and ix: "indices b' = indices b @ map (\<lambda>index. index + of_nat (index_offset b)) (m_indices m)"
    using step by (simp_all add: updateMesh_Inr_iff)
  have "unat i < vertex_count b'" if "i \<in> set (indices b')" for i
  proof -
    from that ix consider "i \<in> set (indices b)"
      | s where "s \<in> set (m_indices m)" "i = s + of_nat (index_offset b)"
      by auto
    then show ?thesis
    proof cases
      case 1
      with old vc show ?thesis by fastforce
    next
      case 2
      have "unat i = (unat s + index_offset b) mod 2 ^ 16"
        using 2 by (simp add: unat_add_of_nat16)
      also have "\<dots> \<le> unat s + index_offset b"
        by simp
      also have "\<dots> < length (m_vertices m) + vertex_count b"
        using src 2 off by fastforce
      finally show ?thesis using vc by simp
    qed
  qed
  with off vc io show ?thesis by simp
qed

lemma updateMesh_vertex_count:
  "updateMesh m b = Inr b' \<Longrightarrow> vertex_count b = length (vertices b) \<Longrightarrow>
   vertex_count b' = length (vertices b')"
  by (simp add: updateMesh_Inr_iff)

lemma merges_indices_in_range_gen:
  assumes "merges ms b = Inr b'"
    and "\<forall>m\<in>set ms. \<forall>i\<in>set (m_indices m). unat i < length (m_vertices m)"
    and "index_offset b \<le> vertex_count b"
    and "\<forall>i\<in>set (indices b). unat i < vertex_count b"
    and "vertex_count b = length (vertices b)"
  shows "(\<forall>i\<in>set (indices b'). unat i < vertex_count b') \<and> index_offset b' \<le> vertex_count b' \<and>
         vertex_count b' = length (vertices b')"
  using assms
proof (induction ms arbitrary: b)
  case Nil
  then show ?case by simp
next
  case (Cons m ms)
  from Cons.prems(1) obtain b1 where step: "updateMesh m b = Inr b1" and rest: "merges ms b1 = Inr b'"
    by (auto split: sum.splits)
  have src: "\<forall>i\<in>set (m_indices m). unat i < length (m_vertices m)"
    using Cons.prems(2) by simp
  have tl: "\<forall>m\<in>set ms. \<forall>i\<in>set (m_indices m). unat i < length (m_vertices m)"
    using Cons.prems(2) by simp
  note inv = updateMesh_indices_in_range [OF step src Cons.prems(3) Cons.prems(4)]
  show ?case
    by (rule Cons.IH [OF rest tl conjunct2 [OF inv] conjunct1 [OF inv]
          updateMesh_vertex_count [OF step Cons.prems(5)]])
qed

text \<open>
  C3. After any sequence of merges into a constructed batch in which every source mesh has
  all its index values below its own vertex count, every index stored in the batch's
  index buffer is strictly less than \<open>vertex_count\<close>, which is the length of the
  vertex buffer.
\<close>

theorem merges_indices_in_range:
  assumes "merges ms (Batch nv ni) = Inr b"
    and "\<forall>m\<in>set ms. \<forall>i\<in>set (m_indices m). unat i < length (m_vertices m)"
  shows "(\<forall>i\<in>set (indices b). unat i < vertex_count b) \<and> vertex_count b = length (vertices b)"
proof -
  have "index_offset (Batch nv ni) \<le> vertex_count (Batch nv ni)"
    and "\<forall>i\<in>set (indices (Batch nv ni)). unat i < vertex_count (Batch nv ni)"
    and "vertex_count (Batch nv ni) = length (vertices (Batch nv ni))"
    by (simp_all add: Batch_def)
  from merges_indices_in_range_gen [OF assms this] show ?thesis by blast
qed

theorem merges_indices_in_range_witness:
  "\<exists>b. merges [quad, quad] (Batch 6 10) = Inr b \<and> vertex_count b = 8 \<and>
     map unat (indices b) = [0, 1, 2, 0, 2, 3, 4, 5, 6, 4, 6, 7] \<and> list_all (\<lambda>i. unat i < 8) (indices b)"
proof -
  let ?r = "merges [quad, quad] (Batch 6 10)"
  have "\<not> isl ?r"
    by (simp add: eval_defs)
  then obtain b where run: "?r = Inr b"
    by (cases ?r) simp_all
  have ok: "\<forall>m\<in>set [quad, quad]. \<forall>i\<in>set (m_indices m). unat i < length (m_vertices m)"
    by (simp add: quad_def)
  have "vertex_count (projr ?r) = 8"
    and "map unat (indices (projr ?r)) = [0, 1, 2, 0, 2, 3, 4, 5, 6, 4, 6, 7]"
    by (simp_all add: eval_defs)
  then have vc: "vertex_count b = 8" and ix: "map unat (indices b) = [0, 1, 2, 0, 2, 3, 4, 5, 6, 4, 6, 7]"
    unfolding run by simp_all
  from merges_indices_in_range [OF run ok] vc have "list_all (\<lambda>i. unat i < 8) (indices b)"
    by (simp add: list_all_iff)
  with run vc ix show ?thesis by (intro exI [of _ b] conjI)
qed

subsection \<open>Capacity\<close>

lemma add_index_bound:
  assumes "add r w = Inr (ok, w')" and "index_count (w_batch w) \<le> indices_limit (w_batch w)"
  shows "index_count (w_batch w') \<le> indices_limit (w_batch w') \<and>
         indices_limit (w_batch w') = indices_limit (w_batch w) \<and>
         vertex_limit (w_batch w') = vertex_limit (w_batch w)"
  using assms
  by (auto simp: add_def Let_def updateMesh_Inr_iff split: list.splits if_splits sum.splits)

lemma add_vertex_count:
  assumes "add r w = Inr (ok, w')" and "vertex_count (w_batch w) = length (vertices (w_batch w))"
  shows "vertex_count (w_batch w') = length (vertices (w_batch w'))"
  using assms
  by (auto simp: add_def Let_def updateMesh_Inr_iff split: list.splits if_splits sum.splits)

lemma adds_index_bound_gen:
  assumes "adds rs w = Inr w'" and "index_count (w_batch w) \<le> indices_limit (w_batch w)"
    and "vertex_count (w_batch w) = length (vertices (w_batch w))"
  shows "index_count (w_batch w') \<le> indices_limit (w_batch w') \<and>
         indices_limit (w_batch w') = indices_limit (w_batch w) \<and>
         vertex_limit (w_batch w') = vertex_limit (w_batch w) \<and>
         vertex_count (w_batch w') = length (vertices (w_batch w'))"
  using assms
proof (induction rs arbitrary: w)
  case Nil
  then show ?case by simp
next
  case (Cons r rs)
  from Cons.prems(1) obtain ok w1 where step: "add r w = Inr (ok, w1)" and rest: "adds rs w1 = Inr w'"
    by (auto split: sum.splits)
  from add_index_bound [OF step Cons.prems(2)] add_vertex_count [OF step Cons.prems(3)]
    Cons.IH [OF rest]
  show ?case by simp
qed

text \<open>
  C1 (amended). For every sequence of \<^verbatim>\<open>add\<close> calls on a batch constructed with
  capacities \<open>(nv, ni)\<close>, after every call \<open>index_count \<le> indices_limit\<close> holds, both
  capacities are the constructor's, and \<open>vertex_count\<close> is the length of the vertex
  buffer. The vertex capacity is not compared with anything.
\<close>

theorem adds_index_bound:
  assumes "adds rs \<lparr>w_batch = Batch nv ni, w_heap = h, w_freed = k, w_rank = rk\<rparr> = Inr w'"
  shows "index_count (w_batch w') \<le> indices_limit (w_batch w') \<and>
         indices_limit (w_batch w') = ni \<and> vertex_limit (w_batch w') = nv \<and>
         vertex_count (w_batch w') = length (vertices (w_batch w'))"
  using adds_index_bound_gen [OF assms] by (simp add: Batch_def)

theorem adds_index_bound_witness:
  "\<exists>w'. adds [0, 1] (world0 6 10 scene) = Inr w' \<and>
     index_count (w_batch w') = 6 \<and> indices_limit (w_batch w') = 10 \<and>
     vertex_count (w_batch w') = 4 \<and> length (vertices (w_batch w')) = 4"
proof -
  let ?r = "adds [0, 1] (world0 6 10 scene)"
  have "\<not> isl ?r"
    by (simp add: eval_defs)
  then obtain w' where run: "?r = Inr w'"
    by (cases ?r) simp_all
  have "index_count (w_batch (projr ?r)) = 6" and "vertex_count (w_batch (projr ?r)) = 4"
    by (simp_all add: eval_defs)
  then have "index_count (w_batch w') = 6" and "vertex_count (w_batch w') = 4"
    unfolding run by simp_all
  with adds_index_bound [OF run [unfolded world0_def]] run show ?thesis
    by (intro exI [of _ w']) simp
qed

text \<open>
  C1 as stated fails: a batch constructed for one vertex merges a mesh of four vertices,
  and \<^verbatim>\<open>add\<close> reports success.
\<close>

theorem add_exceeds_vertex_limit:
  "\<not> isl (add 0 (world0 1 10 scene)) \<and>
   fst (projr (add 0 (world0 1 10 scene))) \<and>
   vertex_limit (w_batch (snd (projr (add 0 (world0 1 10 scene))))) = 1 \<and>
   vertex_count (w_batch (snd (projr (add 0 (world0 1 10 scene))))) = 4"
  by (simp add: eval_defs)

subsection \<open>The tracking container\<close>

text \<open>
  An insertion adds the element and keeps the sequence free of duplicates; and for an
  element that is new, every duplicate-free sequence of the old elements and the new one
  is what the insertion leaves under some rank. The theorems below hold for every rank.
\<close>

lemma set_set_insert: "set (set_insert rank r s) = insert r (set s)"
  by (auto simp: set_insert_def)

lemma distinct_set_insert: "distinct s \<Longrightarrow> distinct (set_insert rank r s)"
  by (simp add: set_insert_def)

lemma takeWhile_pos:
  "distinct t \<Longrightarrow> i < length t \<Longrightarrow> length (takeWhile (\<lambda>x. x \<noteq> t ! i) t) = i"
proof (induction t arbitrary: i)
  case Nil
  then show ?case by simp
next
  case (Cons a t)
  show ?case
  proof (cases i)
    case 0
    then show ?thesis by simp
  next
    case (Suc j)
    with Cons.prems have "a \<noteq> t ! j" by auto
    with Suc Cons show ?thesis by simp
  qed
qed

lemma map_pos:
  "distinct t \<Longrightarrow> map (\<lambda>p. length (takeWhile (\<lambda>x. x \<noteq> p) t)) t = [0..<length t]"
  by (rule nth_equalityI) (simp_all add: takeWhile_pos)

lemma set_insert_any_order:
  assumes new: "r \<notin> set s" and ds: "distinct s" and dt: "distinct t"
    and elems: "set t = insert r (set s)"
  shows "\<exists>rank. set_insert rank r s = t"
proof -
  define f where "f = (\<lambda>p. length (takeWhile (\<lambda>x. x \<noteq> p) t))"
  let ?xs = "s @ [r]"
  have dx: "distinct ?xs" and sx: "set ?xs = set t"
    using new ds elems by auto
  have ft: "map f t = [0..<length t]"
    unfolding f_def by (rule map_pos [OF dt])
  have inj: "inj_on f (set t)"
    using ft dt by (metis distinct_map distinct_upt)
  have s1: "sorted (map f (sort_key f ?xs))" by simp
  have d1: "distinct (map f (sort_key f ?xs))"
    using dx inj sx by (simp add: distinct_map)
  have e1: "set (map f (sort_key f ?xs)) = set (map f t)"
    using sx by simp
  have s2: "sorted (map f t)" and d2: "distinct (map f t)"
    unfolding ft by simp_all
  have "map f (sort_key f ?xs) = map f t"
    by (rule sorted_distinct_set_unique [OF s1 d1 s2 d2 e1])
  then have "sort_key f ?xs = t"
    using inj sx by (auto dest!: inj_on_map_eq_map [THEN iffD1, rotated])
  then have "set_insert (\<lambda>content. f) r s = t"
    using new by (simp add: set_insert_def)
  then show ?thesis by blast
qed

subsection \<open>Outcomes of add\<close>

text \<open>
  C4. For render data with at least one pass (\<^verbatim>\<open>pass(0)\<close> is dereferenced on entry),
  \<^verbatim>\<open>add\<close> returns failure if and only if the render data is eligible for batching,
  all its passes use the texture shader, its index count \<open>n\<close> is zero or
  \<open>n + index_count\<close> exceeds \<open>indices_limit\<close>, and \<open>draw_count > 0\<close>. Under the same
  conditions with \<open>draw_count = 0\<close> it returns success, the render data is tracked with
  its batching flag cleared, \<open>not_batched\<close> is set, and \<open>draw_count\<close>, the merged
  geometry and the prototype are as before.
\<close>

theorem add_failure_iff:
  assumes passes: "rd_passes (w_heap w r) \<noteq> []"
    and rd: "rd = w_heap w r" and b: "b = w_batch w"
    and n: "n = length (m_indices (rd_mesh rd))"
  shows "((\<exists>w'. add r w = Inr (False, w')) \<longleftrightarrow>
            rd_batching rd \<and> (\<forall>mat\<in>set (rd_passes rd). shader_type mat = TEXTURE_SHADER) \<and>
            (n = 0 \<or> indices_limit b < n + index_count b) \<and> 0 < draw_count b) \<and>
         (rd_batching rd \<and> (\<forall>mat\<in>set (rd_passes rd). shader_type mat = TEXTURE_SHADER) \<and>
            (n = 0 \<or> indices_limit b < n + index_count b) \<and> draw_count b = 0 \<longrightarrow>
          (\<exists>w'. add r w = Inr (True, w') \<and>
             r \<in> set (render_data_set (w_batch w')) \<and> \<not> rd_batching (w_heap w' r) \<and>
             not_batched (w_batch w') \<and> draw_count (w_batch w') = draw_count b \<and>
             vertices (w_batch w') = vertices b \<and> indices (w_batch w') = indices b \<and>
             index_count (w_batch w') = index_count b \<and> vertex_count (w_batch w') = vertex_count b \<and>
             renderdata (w_batch w') = renderdata b))"
  using passes unfolding rd b n
  by (auto simp: add_def Let_def updateMesh_Inr_iff set_insert_def list_ex_iff
      split: list.splits if_splits sum.splits)

theorem add_failure_iff_witness:
  "(\<exists>w'. add 1 (projr (adds [0] (world0 6 10 scene))) = Inr (False, w')) \<and>
   (\<exists>w'. add 3 (world0 6 10 scene) = Inr (True, w') \<and> render_data_set (w_batch w') = [3] \<and>
      rd_batching (w_heap w' 3) = False \<and> not_batched (w_batch w') \<and>
      draw_count (w_batch w') = 0 \<and> vertices (w_batch w') = [])"
proof -
  let ?wA = "projr (adds [0] (world0 6 10 scene))"
  have A: "rd_passes (w_heap ?wA 1) \<noteq> []" "rd_batching (w_heap ?wA 1)"
    "\<forall>mat\<in>set (rd_passes (w_heap ?wA 1)). shader_type mat = TEXTURE_SHADER"
    "length (m_indices (rd_mesh (w_heap ?wA 1))) = 6"
    "index_count (w_batch ?wA) = 6" "indices_limit (w_batch ?wA) = 10" "draw_count (w_batch ?wA) = 1"
    by (simp_all add: eval_defs)
  have first: "\<exists>w'. add 1 ?wA = Inr (False, w')"
    using add_failure_iff [OF A(1) refl refl refl] A by simp
  let ?w0 = "world0 6 10 scene"
  have D: "rd_passes (w_heap ?w0 3) \<noteq> []" "rd_batching (w_heap ?w0 3)"
    "\<forall>mat\<in>set (rd_passes (w_heap ?w0 3)). shader_type mat = TEXTURE_SHADER"
    "length (m_indices (rd_mesh (w_heap ?w0 3))) = 12"
    "index_count (w_batch ?w0) = 0" "indices_limit (w_batch ?w0) = 10" "draw_count (w_batch ?w0) = 0"
    "vertices (w_batch ?w0) = []" "render_data_set (w_batch ?w0) = []"
    by (simp_all add: eval_defs)
  from add_failure_iff [OF D(1) refl refl refl] D
  obtain w' where w': "add 3 ?w0 = Inr (True, w')" "3 \<in> set (render_data_set (w_batch w'))"
    "\<not> rd_batching (w_heap w' 3)" "not_batched (w_batch w')" "draw_count (w_batch w') = 0"
    "vertices (w_batch w') = []"
    by auto
  have "render_data_set (w_batch (snd (projr (add 3 ?w0)))) = [3]"
    by (simp add: eval_defs)
  then have "render_data_set (w_batch w') = [3]"
    unfolding w'(1) by simp
  with w' have "\<exists>w'. add 3 ?w0 = Inr (True, w') \<and> render_data_set (w_batch w') = [3] \<and>
      rd_batching (w_heap w' 3) = False \<and> not_batched (w_batch w') \<and>
      draw_count (w_batch w') = 0 \<and> vertices (w_batch w') = []"
    by (intro exI [of _ w']) simp
  with first show ?thesis by (rule conjI)
qed

text \<open>
  C5 (amended). When \<^verbatim>\<open>add\<close> returns failure, the vertex, index, normal, texcoord and
  matrix-index buffers, the counters \<open>vertex_count\<close>, \<open>index_count\<close>,
  \<open>index_offset\<close> and \<open>draw_count\<close>, the tracking set and the owned prototype are
  unchanged. What has changed is exactly: the matrix appended to \<open>matrices\<close>, the entry
  of \<open>matrix_index_map\<close>, the member \<^verbatim>\<open>material_\<close>, now the material of the rejected
  render data's pass 0, and the two dirty flags cleared on the render data and its owner.
\<close>

theorem add_failure_frame:
  assumes "add r w = Inr (False, w')" and b: "b = w_batch w" and b': "b' = w_batch w'"
  shows "vertices b' = vertices b \<and> indices b' = indices b \<and> normals b' = normals b \<and>
         tex_coords b' = tex_coords b \<and> matrix_indices b' = matrix_indices b \<and>
         vertex_count b' = vertex_count b \<and> index_count b' = index_count b \<and>
         index_offset b' = index_offset b \<and> draw_count b' = draw_count b \<and>
         render_data_set b' = render_data_set b \<and> renderdata b' = renderdata b \<and>
         w' = w\<lparr>w_batch := b\<lparr>material := Some (hd (rd_passes (w_heap w r))),
                              matrix_index_map := (matrix_index_map b)(r \<mapsto> draw_count b),
                              matrices := matrices b @ [model_matrix_of (w_heap w r)]\<rparr>,
                 w_heap := (w_heap w)(r := (w_heap w r)\<lparr>rd_dirty := False,
                                                        owner_transform_dirty := False\<rparr>)\<rparr>"
  using assms(1) unfolding b b'
  by (auto simp: add_def Let_def updateMesh_Inr_iff split: list.splits if_splits sum.splits)

theorem add_failure_frame_witness:
  "\<exists>w'. add 1 (projr (adds [0] (world0 6 10 scene))) = Inr (False, w') \<and>
     length (vertices (w_batch w')) = 4 \<and> length (indices (w_batch w')) = 6 \<and>
     draw_count (w_batch w') = 1 \<and> render_data_set (w_batch w') = [0] \<and>
     length (matrices (w_batch w')) = 2 \<and> matrix_index_map (w_batch w') 1 = Some 1"
proof -
  let ?wA = "projr (adds [0] (world0 6 10 scene))"
  have "\<not> isl (add 1 ?wA)" and "\<not> fst (projr (add 1 ?wA))"
    by (simp_all add: eval_defs)
  then obtain w' where run: "add 1 ?wA = Inr (False, w')"
    by (cases "add 1 ?wA") auto
  have A: "length (vertices (w_batch ?wA)) = 4" "length (indices (w_batch ?wA)) = 6"
    "draw_count (w_batch ?wA) = 1" "render_data_set (w_batch ?wA) = [0]"
    "length (matrices (w_batch ?wA)) = 1"
    by (simp_all add: eval_defs)
  from add_failure_frame [OF run refl refl] A
  have "length (vertices (w_batch w')) = 4 \<and> length (indices (w_batch w')) = 6 \<and>
     draw_count (w_batch w') = 1 \<and> render_data_set (w_batch w') = [0] \<and>
     length (matrices (w_batch w')) = 2 \<and> matrix_index_map (w_batch w') 1 = Some 1"
    by simp
  with run show ?thesis by (intro exI [of _ w']) simp
qed

text \<open>
  C5 as stated fails: the rejected render data at address 1 leaves its material in
  \<^verbatim>\<open>material_\<close>, which held the material of the merged member before the call.
\<close>

theorem add_failure_overwrites_material:
  "\<not> isl (add 1 (projr (adds [0] (world0 6 10 scene)))) \<and>
   \<not> fst (projr (add 1 (projr (adds [0] (world0 6 10 scene))))) \<and>
   material (w_batch (projr (adds [0] (world0 6 10 scene)))) =
     Some \<lparr>mat_ptr = 0, shader_type = TEXTURE_SHADER\<rparr> \<and>
   material (w_batch (snd (projr (add 1 (projr (adds [0] (world0 6 10 scene))))))) =
     Some \<lparr>mat_ptr = 1, shader_type = TEXTURE_SHADER\<rparr>"
  by (simp add: eval_defs)

text \<open>
  C2. \<open>length matrices = draw_count\<close> does not hold after every \<^verbatim>\<open>add\<close>: the matrix
  is appended before the checks, \<open>draw_count\<close> grows only in the merge. With capacities
  of 6 vertices and 10 indices, after one merged member the rejected second one leaves two
  matrices for one draw slot; on a new batch, the render data at address 2, which has opted
  out, leaves one matrix for no draw slot.
\<close>

theorem add_matrices_outrun_draw_count:
  "\<not> isl (add 1 (projr (adds [0] (world0 6 10 scene)))) \<and>
   \<not> fst (projr (add 1 (projr (adds [0] (world0 6 10 scene))))) \<and>
   draw_count (w_batch (snd (projr (add 1 (projr (adds [0] (world0 6 10 scene))))))) = 1 \<and>
   length (matrices (w_batch (snd (projr (add 1 (projr (adds [0] (world0 6 10 scene)))))))) = 2 \<and>
   \<not> isl (add 2 (world0 6 10 scene)) \<and>
   fst (projr (add 2 (world0 6 10 scene))) \<and>
   draw_count (w_batch (snd (projr (add 2 (world0 6 10 scene))))) = 0 \<and>
   length (matrices (w_batch (snd (projr (add 2 (world0 6 10 scene)))))) = 1"
  by (simp add: eval_defs)

text \<open>
  What does hold of the tags: in a sequence of merges into a constructed batch, every
  vertex of the \<open>k\<close>-th mesh (counted from 0) carries the tag \<open>k\<close>, the draw slot at
  the time of its merge.
\<close>

lemma merges_matrix_indices_gen:
  "merges ms b = Inr b' \<Longrightarrow>
     matrix_indices b' = matrix_indices b @
       concat (map (\<lambda>(k, m). replicate (length (m_vertices m)) k) (enumerate (draw_count b) ms)) \<and>
     draw_count b' = draw_count b + length ms"
proof (induction ms arbitrary: b)
  case Nil
  then show ?case by simp
next
  case (Cons m ms)
  from Cons.prems obtain b1 where step: "updateMesh m b = Inr b1" and rest: "merges ms b1 = Inr b'"
    by (auto split: sum.splits)
  from step Cons.IH [OF rest] show ?case
    by (simp add: updateMesh_Inr_iff)
qed

lemma merges_matrix_indices:
  "merges ms (Batch nv ni) = Inr b \<Longrightarrow>
     matrix_indices b =
       concat (map (\<lambda>(k, m). replicate (length (m_vertices m)) k) (enumerate 0 ms)) \<and>
     draw_count b = length ms"
  using merges_matrix_indices_gen [of ms "Batch nv ni" b] by (simp add: Batch_def)

text \<open>
  What the surplus matrix does to the tags: the render data at address 2 is tracked
  unbatched, the one at address 0 is merged after it. Its vertices carry the tag 0 and
  the map sends it to slot 0, where \<open>matrices\<close> holds the matrix of the object at
  address 2.
\<close>

lemma add_tag_selects_other_matrix:
  "\<not> isl (adds [2, 0] (world0 6 10 scene)) \<and>
   matrix_indices (w_batch (projr (adds [2, 0] (world0 6 10 scene)))) = [0, 0, 0, 0] \<and>
   vertices (w_batch (projr (adds [2, 0] (world0 6 10 scene)))) = m_vertices quad \<and>
   matrix_index_map (w_batch (projr (adds [2, 0] (world0 6 10 scene)))) 0 = Some 0 \<and>
   matrices (w_batch (projr (adds [2, 0] (world0 6 10 scene)))) ! 0 = model_matrix_of (scene 2) \<and>
   model_matrix_of (scene 2) \<noteq> model_matrix_of (scene 0)"
  by (simp add: eval_defs mat4_default_def)

subsection \<open>Eviction and regeneration\<close>

lemmas frame_defs = setupMesh_def isRenderModified_def resetBatch_def clearData_def meshInit_def
  regenerateMeshData_def disable_def empty_mesh_def

lemma evict_loop_eq:
  "evict_loop ps h u =
     (filter (\<lambda>p. rd_enabled (h p) \<and> owner_enabled (h p)) ps,
      (\<lambda>p. if p \<in> set ps \<and> (\<not> rd_enabled (h p) \<or> \<not> owner_enabled (h p))
            then (h p)\<lparr>rd_batching := False, rd_batch := None\<rparr> else h p),
      u \<or> (\<exists>p\<in>set ps. \<not> rd_enabled (h p) \<or> \<not> owner_enabled (h p)))"
proof (induction ps arbitrary: h u)
  case Nil
  show ?case by simp
next
  case (Cons it rest)
  show ?case
  proof (cases "\<not> rd_enabled (h it) \<or> \<not> owner_enabled (h it)")
    case True
    let ?h = "h(it := (h it)\<lparr>rd_batching := False, rd_batch := None\<rparr>)"
    have en: "rd_enabled (?h p) = rd_enabled (h p)" "owner_enabled (?h p) = owner_enabled (h p)" for p
      by simp_all
    have "evict_loop (it # rest) h u = evict_loop rest ?h True"
      using True by simp
    also have "\<dots> = (filter (\<lambda>p. rd_enabled (h p) \<and> owner_enabled (h p)) rest,
      (\<lambda>p. if p \<in> set rest \<and> (\<not> rd_enabled (h p) \<or> \<not> owner_enabled (h p))
            then (?h p)\<lparr>rd_batching := False, rd_batch := None\<rparr> else ?h p),
      True)"
      unfolding Cons.IH [of ?h True] en by simp
    finally show ?thesis
      using True by (auto simp: fun_eq_iff)
  next
    case False
    then show ?thesis
      by (auto simp: Cons.IH [of h u] fun_eq_iff)
  qed
qed

lemma evict_loop_all_enabled:
  "\<forall>p\<in>set ps. rd_enabled (h p) \<and> owner_enabled (h p) \<Longrightarrow> evict_loop ps h u = (ps, h, u)"
  by (induction ps) auto

lemma isRenderModified_eq:
  "isRenderModified w =
     (\<exists>p\<in>set (render_data_set (w_batch w)). \<not> rd_enabled (w_heap w p) \<or> \<not> owner_enabled (w_heap w p),
      w\<lparr>w_batch := (w_batch w)\<lparr>render_data_set :=
           filter (\<lambda>p. rd_enabled (w_heap w p) \<and> owner_enabled (w_heap w p))
             (render_data_set (w_batch w))\<rparr>,
        w_heap := (\<lambda>p. if p \<in> set (render_data_set (w_batch w)) \<and>
                          (\<not> rd_enabled (w_heap w p) \<or> \<not> owner_enabled (w_heap w p))
                       then (w_heap w p)\<lparr>rd_batching := False, rd_batch := None\<rparr>
                       else w_heap w p)\<rparr>)"
  by (simp add: isRenderModified_def evict_loop_eq)

lemma regen_loop_frame:
  "regen_loop ps h b = Inr b' \<Longrightarrow>
     render_data_set b' = render_data_set b \<and> vertex_limit b' = vertex_limit b \<and>
     indices_limit b' = indices_limit b \<and> not_batched b' = not_batched b \<and>
     renderdata b' = renderdata b \<and> material b' = material b \<and>
     batch_mesh b' = batch_mesh b \<and> batch_dirty b' = batch_dirty b \<and>
     mesh_init b' = (ps = [] \<and> mesh_init b)"
proof (induction ps arbitrary: b)
  case Nil
  then show ?case by simp
next
  case (Cons p ps)
  from Cons.prems obtain b2 where
    step: "updateMesh (rd_mesh (h p))
             (b\<lparr>matrix_index_map := (matrix_index_map b)(p \<mapsto> draw_count b),
                matrices := matrices b @ [model_matrix_of (h p)]\<rparr>) = Inr b2"
    and rest: "regen_loop ps h b2 = Inr b'"
    by (auto simp: Let_def split: sum.splits)
  from step Cons.IH [OF rest] show ?case
    by (simp add: updateMesh_Inr_iff)
qed

lemma regen_loop_geometry:
  "regen_loop ps h b = Inr b' \<Longrightarrow>
     vertices b' = vertices b @ concat (map (\<lambda>p. m_vertices (rd_mesh (h p))) ps) \<and>
     draw_count b' = draw_count b + length ps \<and>
     index_count b' = index_count b + sum_list (map (\<lambda>p. length (m_indices (rd_mesh (h p)))) ps) \<and>
     length (indices b') = length (indices b) + sum_list (map (\<lambda>p. length (m_indices (rd_mesh (h p)))) ps) \<and>
     length (matrices b') = length (matrices b) + length ps"
proof (induction ps arbitrary: b)
  case Nil
  then show ?case by simp
next
  case (Cons p ps)
  from Cons.prems obtain b2 where
    step: "updateMesh (rd_mesh (h p))
             (b\<lparr>matrix_index_map := (matrix_index_map b)(p \<mapsto> draw_count b),
                matrices := matrices b @ [model_matrix_of (h p)]\<rparr>) = Inr b2"
    and rest: "regen_loop ps h b2 = Inr b'"
    by (auto simp: Let_def split: sum.splits)
  from step Cons.IH [OF rest] show ?case
    by (simp add: updateMesh_Inr_iff)
qed

lemma regen_loop_buffers:
  "regen_loop ps h b = Inr b' \<Longrightarrow>
     normals b' = normals b @ concat (map (\<lambda>p. m_normals (rd_mesh (h p))) ps) \<and>
     tex_coords b' = tex_coords b @
       concat (map (\<lambda>p. take (length (m_vertices (rd_mesh (h p)))) (m_texcoord (rd_mesh (h p)))) ps) \<and>
     matrices b' = matrices b @ map (\<lambda>p. model_matrix_of (h p)) ps \<and>
     vertex_count b' = vertex_count b + sum_list (map (\<lambda>p. length (m_vertices (rd_mesh (h p)))) ps) \<and>
     index_offset b' = index_offset b + sum_list (map (\<lambda>p. length (m_vertices (rd_mesh (h p)))) ps) \<and>
     matrix_indices b' = matrix_indices b @
       concat (map (\<lambda>k. replicate (length (m_vertices (rd_mesh (h (ps ! k))))) (draw_count b + k))
                 [0..<length ps]) \<and>
     indices b' = indices b @
       concat (map (\<lambda>k. map (\<lambda>index. index + of_nat (index_offset b +
                                sum_list (map (\<lambda>p. length (m_vertices (rd_mesh (h p)))) (take k ps))))
                            (m_indices (rd_mesh (h (ps ! k)))))
                 [0..<length ps])"
proof (induction ps arbitrary: b)
  case Nil
  then show ?case by simp
next
  case (Cons p ps)
  from Cons.prems obtain b2 where
    step: "updateMesh (rd_mesh (h p))
             (b\<lparr>matrix_index_map := (matrix_index_map b)(p \<mapsto> draw_count b),
                matrices := matrices b @ [model_matrix_of (h p)]\<rparr>) = Inr b2"
    and rest: "regen_loop ps h b2 = Inr b'"
    by (auto simp: Let_def split: sum.splits)
  from step Cons.IH [OF rest] show ?case
    by (simp add: updateMesh_Inr_iff map_upt_Suc add.assoc del: upt_Suc)
qed

lemma regen_loop_total:
  "\<forall>p\<in>set ps. length (m_vertices (rd_mesh (h p))) \<le> length (m_texcoord (rd_mesh (h p))) \<Longrightarrow>
   \<exists>b'. regen_loop ps h b = Inr b'"
proof (induction ps arbitrary: b)
  case Nil
  show ?case by simp
next
  case (Cons p ps)
  let ?b1 = "b\<lparr>matrix_index_map := (matrix_index_map b)(p \<mapsto> draw_count b),
                matrices := matrices b @ [model_matrix_of (h p)]\<rparr>"
  from Cons.prems obtain b2 where step: "updateMesh (rd_mesh (h p)) ?b1 = Inr b2"
    by (simp add: updateMesh_Inr_iff)
  from Cons.prems have "\<exists>b'. regen_loop ps h b2 = Inr b'"
    by (intro Cons.IH) simp
  with step show ?case by (simp add: Let_def)
qed

lemma regen_loop_merges:
  "regen_loop ps h b = Inr b' \<Longrightarrow> merge_state b = merge_state c \<Longrightarrow>
   \<exists>c'. merges (map (\<lambda>p. rd_mesh (h p)) ps) c = Inr c' \<and> merge_state b' = merge_state c'"
proof (induction ps arbitrary: b c)
  case Nil
  then show ?case by simp
next
  case (Cons p ps)
  let ?b1 = "b\<lparr>matrix_index_map := (matrix_index_map b)(p \<mapsto> draw_count b),
                matrices := matrices b @ [model_matrix_of (h p)]\<rparr>"
  from Cons.prems(1) obtain b2 where step: "updateMesh (rd_mesh (h p)) ?b1 = Inr b2"
    and rest: "regen_loop ps h b2 = Inr b'"
    by (auto simp: Let_def split: sum.splits)
  from step obtain c2 where cstep: "updateMesh (rd_mesh (h p)) c = Inr c2"
    by (simp add: updateMesh_Inr_iff)
  from step cstep Cons.prems(2) have "merge_state b2 = merge_state c2"
    by (simp add: updateMesh_Inr_iff merge_state_def)
  from Cons.IH [OF rest this] cstep show ?case by simp
qed

lemma merge_state_clearData: "merge_state (clearData b) = merge_state (Batch nv ni)"
  by (simp add: merge_state_def clearData_def Batch_def)

lemma regenerateMeshData_Inr:
  assumes "regenerateMeshData h b = Inr b'" and ps: "ps = render_data_set b"
  shows "render_data_set b' = ps \<and> vertex_limit b' = vertex_limit b \<and>
         indices_limit b' = indices_limit b \<and> not_batched b' = not_batched b \<and>
         renderdata b' = renderdata b \<and> material b' = material b \<and>
         batch_mesh b' = batch_mesh b \<and> \<not> batch_dirty b' \<and> \<not> mesh_init b' \<and>
         draw_count b' = length ps \<and>
         vertices b' = concat (map (\<lambda>p. m_vertices (rd_mesh (h p))) ps) \<and>
         index_count b' = sum_list (map (\<lambda>p. length (m_indices (rd_mesh (h p)))) ps) \<and>
         length (indices b') = index_count b' \<and> length (matrices b') = length ps \<and>
         (\<exists>c. merges (map (\<lambda>p. rd_mesh (h p)) ps) (Batch nv ni) = Inr c \<and>
              merge_state b' = merge_state c)"
proof -
  from assms have loop: "regen_loop ps h (clearData b) = Inr b'"
    by (simp add: regenerateMeshData_def Let_def clearData_def)
  from regen_loop_frame [OF loop] regen_loop_geometry [OF loop]
    regen_loop_merges [OF loop merge_state_clearData [of b nv ni]]
  show ?thesis
    by (simp add: clearData_def ps)
qed

text \<open>
  C9. \<^verbatim>\<open>regenerateMeshData\<close> merges the geometry of every render data in the tracking
  set, whatever its batching flag, its shaders and the capacities. It returns whenever
  every tracked mesh has a texture coordinate for each vertex. With \<open>ps\<close> the tracked
  members in the order of the loop and \<open>nv p\<close> the vertex count of member \<open>p\<close>,
  \<open>draw_count\<close> is then the number of members; the vertex, texture coordinate and normal
  buffers are the concatenations of the members' vertices, of their first \<open>nv p\<close> texture
  coordinates and of their normals; the tags are \<open>k\<close> for each vertex of the \<open>k\<close>-th
  member; the index buffer holds, for the \<open>k\<close>-th member, its indices plus the number of
  vertices of the members before it, in 16 bits; \<open>matrices\<close> holds the members' model
  matrices; \<open>index_count\<close> is the sum of all their index counts, with no limit applied.
  Counters and buffers are also those of merging all the tracked meshes into a new batch.
\<close>

theorem regenerateMeshData_merges_every_member:
  assumes texcoords: "\<forall>p\<in>set (render_data_set b).
      length (m_vertices (rd_mesh (h p))) \<le> length (m_texcoord (rd_mesh (h p)))"
    and ps: "ps = render_data_set b"
    and nv: "nv = (\<lambda>p. length (m_vertices (rd_mesh (h p))))"
  shows "\<exists>b'. regenerateMeshData h b = Inr b' \<and> render_data_set b' = ps \<and>
           draw_count b' = length ps \<and>
           vertices b' = concat (map (\<lambda>p. m_vertices (rd_mesh (h p))) ps) \<and>
           tex_coords b' = concat (map (\<lambda>p. take (nv p) (m_texcoord (rd_mesh (h p)))) ps) \<and>
           normals b' = concat (map (\<lambda>p. m_normals (rd_mesh (h p))) ps) \<and>
           matrix_indices b' = concat (map (\<lambda>k. replicate (nv (ps ! k)) k) [0..<length ps]) \<and>
           indices b' =
             concat (map (\<lambda>k. map (\<lambda>index. index + of_nat (sum_list (map nv (take k ps))))
                                 (m_indices (rd_mesh (h (ps ! k)))))
                       [0..<length ps]) \<and>
           matrices b' = map (\<lambda>p. model_matrix_of (h p)) ps \<and>
           vertex_count b' = sum_list (map nv ps) \<and> index_offset b' = sum_list (map nv ps) \<and>
           index_count b' = sum_list (map (\<lambda>p. length (m_indices (rd_mesh (h p)))) ps) \<and>
           length (indices b') = index_count b' \<and>
           (\<exists>c. merges (map (\<lambda>p. rd_mesh (h p)) ps)
                   (Batch (vertex_limit b) (indices_limit b)) = Inr c \<and>
                merge_state b' = merge_state c)"
proof -
  from regen_loop_total [OF texcoords, of "clearData b"]
  obtain b' where run: "regenerateMeshData h b = Inr b'"
    by (auto simp: regenerateMeshData_def Let_def clearData_def)
  then have loop: "regen_loop ps h (clearData b) = Inr b'"
    by (simp add: regenerateMeshData_def Let_def clearData_def ps)
  from regen_loop_buffers [OF loop]
  have "tex_coords b' = concat (map (\<lambda>p. take (nv p) (m_texcoord (rd_mesh (h p)))) ps)"
    and "normals b' = concat (map (\<lambda>p. m_normals (rd_mesh (h p))) ps)"
    and "matrix_indices b' = concat (map (\<lambda>k. replicate (nv (ps ! k)) k) [0..<length ps])"
    and "indices b' =
             concat (map (\<lambda>k. map (\<lambda>index. index + of_nat (sum_list (map nv (take k ps))))
                                 (m_indices (rd_mesh (h (ps ! k)))))
                       [0..<length ps])"
    and "matrices b' = map (\<lambda>p. model_matrix_of (h p)) ps"
    and "vertex_count b' = sum_list (map nv ps)" and "index_offset b' = sum_list (map nv ps)"
    by (simp_all add: clearData_def nv)
  with regenerateMeshData_Inr [OF run ps, of "vertex_limit b" "indices_limit b"] run
  show ?thesis by simp
qed

theorem regenerateMeshData_merges_every_member_witness:
  "\<exists>b'. regenerateMeshData (w_heap (projr (adds [2, 3, 4] (world0 6 10 scene))))
            (w_batch (projr (adds [2, 3, 4] (world0 6 10 scene)))) = Inr b' \<and>
     set (render_data_set (w_batch (projr (adds [2, 3, 4] (world0 6 10 scene))))) = {2, 3, 4} \<and>
     draw_count (w_batch (projr (adds [2, 3, 4] (world0 6 10 scene)))) = 0 \<and>
     vertices (w_batch (projr (adds [2, 3, 4] (world0 6 10 scene)))) = [] \<and>
     rd_batching (w_heap (projr (adds [2, 3, 4] (world0 6 10 scene))) 2) = False \<and>
     rd_batching (w_heap (projr (adds [2, 3, 4] (world0 6 10 scene))) 3) = False \<and>
     draw_count b' = 3 \<and> length (vertices b') = 16 \<and> length (tex_coords b') = 16 \<and>
     length (normals b') = 8 \<and> length (matrix_indices b') = 16 \<and> length (indices b') = 24 \<and>
     length (matrices b') = 3 \<and> index_count b' = 24 \<and> indices_limit b' = 10"
proof -
  let ?w = "projr (adds [2, 3, 4] (world0 6 10 scene))"
  have tracked: "render_data_set (w_batch ?w) = [2, 3, 4]"
    by (simp add: eval_defs)
  have pre: "draw_count (w_batch ?w) = 0" "vertices (w_batch ?w) = []"
    "rd_batching (w_heap ?w 2) = False" "rd_batching (w_heap ?w 3) = False"
    "indices_limit (w_batch ?w) = 10"
    by (simp_all add: eval_defs)
  have tc: "\<forall>p\<in>set (render_data_set (w_batch ?w)).
      length (m_vertices (rd_mesh (w_heap ?w p))) \<le> length (m_texcoord (rd_mesh (w_heap ?w p)))"
    unfolding tracked by (simp add: eval_defs)
  from regenerateMeshData_merges_every_member [OF tc tracked [symmetric] refl]
  obtain b' where b': "regenerateMeshData (w_heap ?w) (w_batch ?w) = Inr b'"
    "draw_count b' = length [2, 3, 4 :: nat]"
    "vertices b' = concat (map (\<lambda>p. m_vertices (rd_mesh (w_heap ?w p))) [2, 3, 4])"
    "tex_coords b' = concat (map (\<lambda>p. take (length (m_vertices (rd_mesh (w_heap ?w p))))
                                     (m_texcoord (rd_mesh (w_heap ?w p)))) [2, 3, 4])"
    "normals b' = concat (map (\<lambda>p. m_normals (rd_mesh (w_heap ?w p))) [2, 3, 4])"
    "matrix_indices b' = concat (map (\<lambda>k. replicate (length (m_vertices (rd_mesh (w_heap ?w ([2, 3, 4] ! k))))) k)
                                   [0..<length [2, 3, 4 :: nat]])"
    "matrices b' = map (\<lambda>p. model_matrix_of (w_heap ?w p)) [2, 3, 4]"
    "index_count b' = sum_list (map (\<lambda>p. length (m_indices (rd_mesh (w_heap ?w p)))) [2, 3, 4])"
    "length (indices b') = index_count b'"
    by blast
  have lim: "indices_limit b' = 10"
    using regenerateMeshData_Inr [OF b'(1) refl, of 0 0] pre(5) by simp
  have "draw_count b' = 3" "length (vertices b') = 16" "length (tex_coords b') = 16"
    "length (normals b') = 8" "length (matrices b') = 3" "index_count b' = 24"
    unfolding b'(2,3,4,5,7,8) by (simp_all add: eval_defs)
  moreover have "length (matrix_indices b') = 16"
    unfolding b'(6) by (simp add: eval_defs upt_rec)
  moreover have "set (render_data_set (w_batch ?w)) = {2, 3, 4}"
    unfolding tracked by auto
  ultimately show ?thesis
    using b'(1,9) pre lim by (intro exI [of _ b']) simp
qed

text \<open>
  C6. If a tracked render data \<open>r\<close> is disabled, or its owner is, a call of
  \<^verbatim>\<open>setupMesh\<close> that returns leaves \<open>r\<close> out of the tracking set, with its batching
  flag and its batch back-reference cleared; the tracking set is \<open>kept\<close>, the members
  still enabled, and the counters and buffers are those of merging the meshes of \<open>kept\<close>
  alone into a new batch: the vertex buffer is the concatenation of their vertices. The
  call reports active exactly when \<open>kept\<close> is not empty, and then the mesh object has
  been rebuilt from the new buffers.
\<close>

theorem setupMesh_evicts:
  assumes run: "setupMesh d w = Inr (ok, w')"
    and mem: "r \<in> set (render_data_set (w_batch w))"
    and dis: "\<not> rd_enabled (w_heap w r) \<or> \<not> owner_enabled (w_heap w r)"
    and kept: "kept = filter (\<lambda>p. rd_enabled (w_heap w p) \<and> owner_enabled (w_heap w p))
                        (render_data_set (w_batch w))"
  shows "r \<notin> set (render_data_set (w_batch w')) \<and> render_data_set (w_batch w') = kept \<and>
         \<not> rd_batching (w_heap w' r) \<and> rd_batch (w_heap w' r) = None \<and>
         (\<exists>c. merges (map (\<lambda>p. rd_mesh (w_heap w p)) kept)
                 (Batch (vertex_limit (w_batch w)) (indices_limit (w_batch w))) = Inr c \<and>
              merge_state (w_batch w') = merge_state c) \<and>
         vertices (w_batch w') = concat (map (\<lambda>p. m_vertices (rd_mesh (w_heap w p))) kept) \<and>
         length (indices (w_batch w')) =
           sum_list (map (\<lambda>p. length (m_indices (rd_mesh (w_heap w p)))) kept) \<and>
         draw_count (w_batch w') = length kept \<and> ok = (kept \<noteq> []) \<and>
         (ok \<longrightarrow> mesh_init (w_batch w') \<and>
            m_vertices (batch_mesh (w_batch w')) = vertices (w_batch w') \<and>
            m_indices (batch_mesh (w_batch w')) = indices (w_batch w'))"
proof -
  define h' where "h' = (\<lambda>p. if p \<in> set (render_data_set (w_batch w)) \<and>
                          (\<not> rd_enabled (w_heap w p) \<or> \<not> owner_enabled (w_heap w p))
                       then (w_heap w p)\<lparr>rd_batching := False, rd_batch := None\<rparr>
                       else w_heap w p)"
  define w1 where "w1 = w\<lparr>w_batch := (w_batch w)\<lparr>render_data_set := kept\<rparr>, w_heap := h'\<rparr>"
  have irm: "isRenderModified w = (True, w1)"
    using mem dis by (auto simp: isRenderModified_eq w1_def h'_def kept)
  have gone: "r \<notin> set kept"
    using dis by (auto simp: kept)
  have flags: "\<not> rd_batching (h' r)" "rd_batch (h' r) = None"
    using mem dis by (simp_all add: h'_def)
  have meshes: "rd_mesh (h' p) = rd_mesh (w_heap w p)" for p
    by (simp add: h'_def)
  show ?thesis
  proof (cases "kept = []")
    case True
    with run irm have res: "ok = False" "w' = resetBatch w1"
      by (simp_all add: setupMesh_def w1_def)
    have "merge_state (w_batch w') = merge_state (Batch (vertex_limit (w_batch w)) (indices_limit (w_batch w)))"
      by (simp add: res resetBatch_def merge_state_def clearData_def Batch_def)
    with True gone flags show ?thesis
      by (simp add: res resetBatch_def w1_def clearData_def merge_state_def Batch_def)
  next
    case False
    with run irm obtain b2 where regen: "regenerateMeshData h' (w_batch w1) = Inr b2"
      and res: "ok = True"
        "w' = w1\<lparr>w_batch := (if \<not> mesh_init (b2\<lparr>batch_dirty := False\<rparr>)
                               then meshInit (b2\<lparr>batch_dirty := False\<rparr>)
                               else b2\<lparr>batch_dirty := False\<rparr>)\<rparr>"
      by (auto simp: setupMesh_def w1_def Let_def split: sum.splits)
    have set1: "kept = render_data_set (w_batch w1)"
      by (simp add: w1_def)
    note R = regenerateMeshData_Inr [OF regen set1,
        of "vertex_limit (w_batch w)" "indices_limit (w_batch w)"]
    from R have w'b: "w_batch w' = meshInit (b2\<lparr>batch_dirty := False\<rparr>)"
      by (simp add: res)
    have ms: "merge_state (w_batch w') = merge_state b2"
      by (simp add: w'b meshInit_def merge_state_def Let_def)
    have hp: "w_heap w' = h'"
      by (simp add: res w1_def)
    from R ms have "\<exists>c. merges (map (\<lambda>p. rd_mesh (w_heap w p)) kept)
                 (Batch (vertex_limit (w_batch w)) (indices_limit (w_batch w))) = Inr c \<and>
              merge_state (w_batch w') = merge_state c"
      by (simp add: meshes)
    moreover from R have "render_data_set (w_batch w') = kept"
      "vertices (w_batch w') = concat (map (\<lambda>p. m_vertices (rd_mesh (w_heap w p))) kept)"
      "length (indices (w_batch w')) =
           sum_list (map (\<lambda>p. length (m_indices (rd_mesh (w_heap w p)))) kept)"
      "draw_count (w_batch w') = length kept"
      "mesh_init (w_batch w')"
      "m_vertices (batch_mesh (w_batch w')) = vertices (w_batch w')"
      "m_indices (batch_mesh (w_batch w')) = indices (w_batch w')"
      by (simp_all add: w'b meshInit_def Let_def meshes)
    ultimately show ?thesis
      using gone flags False res(1) hp by simp
  qed
qed

theorem setupMesh_evicts_witness:
  "\<exists>w'. setupMesh False (disable 0 (projr (adds [0, 1] (world0 8 12 scene)))) = Inr (True, w') \<and>
     length (vertices (w_batch (projr (adds [0, 1] (world0 8 12 scene))))) = 8 \<and>
     render_data_set (w_batch w') = [1] \<and> length (vertices (w_batch w')) = 4 \<and>
     length (indices (w_batch w')) = 6 \<and> draw_count (w_batch w') = 1 \<and>
     rd_batching (w_heap w' 0) = False \<and> rd_batch (w_heap w' 0) = None"
proof -
  let ?w = "disable 0 (projr (adds [0, 1] (world0 8 12 scene)))"
  have "\<not> isl (setupMesh False ?w)" and "fst (projr (setupMesh False ?w))"
    by (simp_all add: eval_defs frame_defs)
  then obtain w' where run: "setupMesh False ?w = Inr (True, w')"
    by (cases "setupMesh False ?w") auto
  have pre: "0 \<in> set (render_data_set (w_batch ?w))"
    "\<not> rd_enabled (w_heap ?w 0) \<or> \<not> owner_enabled (w_heap ?w 0)"
    "[1] = filter (\<lambda>p. rd_enabled (w_heap ?w p) \<and> owner_enabled (w_heap ?w p))
             (render_data_set (w_batch ?w))"
    "length (m_vertices (rd_mesh (w_heap ?w 1))) = 4" "length (m_indices (rd_mesh (w_heap ?w 1))) = 6"
    "length (vertices (w_batch (projr (adds [0, 1] (world0 8 12 scene))))) = 8"
    by (simp_all add: eval_defs frame_defs)
  from setupMesh_evicts [OF run pre(1) pre(2) pre(3)] pre(4) pre(5)
  have "render_data_set (w_batch w') = [1] \<and> length (vertices (w_batch w')) = 4 \<and>
     length (indices (w_batch w')) = 6 \<and> draw_count (w_batch w') = 1 \<and>
     rd_batching (w_heap w' 0) = False \<and> rd_batch (w_heap w' 0) = None"
    by simp
  with run pre(6) show ?thesis by (intro exI [of _ w']) simp
qed

text \<open>
  C7 (amended). If the tracking set is empty after the eviction scan, \<^verbatim>\<open>setupMesh\<close>
  returns false, the pool owner has received one more notification, the prototype is
  gone, every formerly tracked member has its batching flag and back-reference cleared, and
  the batch equals a newly constructed batch of the same capacities in every member other
  than \<open>not_batched\<close>, \<^verbatim>\<open>material_\<close> and \<^verbatim>\<open>mesh_\<close>.
\<close>

theorem setupMesh_empties:
  assumes "render_data_set (w_batch (snd (isRenderModified w))) = []"
  shows "\<exists>w'. setupMesh d w = Inr (False, w') \<and> w_freed w' = w_freed w + 1 \<and>
           w_batch w' = (Batch (vertex_limit (w_batch w)) (indices_limit (w_batch w)))
              \<lparr>not_batched := not_batched (w_batch w'), material := material (w_batch w'),
               batch_mesh := batch_mesh (w_batch w')\<rparr> \<and>
           renderdata (w_batch w') = None \<and> render_data_set (w_batch w') = [] \<and>
           (\<forall>p\<in>set (render_data_set (w_batch w)).
              \<not> rd_batching (w_heap w' p) \<and> rd_batch (w_heap w' p) = None)"
proof -
  obtain u w1 where irm: "isRenderModified w = (u, w1)"
    by (cases "isRenderModified w")
  with assms have empty: "render_data_set (w_batch w1) = []"
    by simp
  then have run: "setupMesh d w = Inr (False, resetBatch w1)"
    by (simp add: setupMesh_def irm)
  from irm have w1: "w1 = snd (isRenderModified w)"
    by simp
  have all_gone: "\<not> rd_enabled (w_heap w p) \<or> \<not> owner_enabled (w_heap w p)"
    if "p \<in> set (render_data_set (w_batch w))" for p
    using empty that unfolding w1 isRenderModified_eq by (auto simp: filter_empty_conv)
  have "w_batch (resetBatch w1) = (Batch (vertex_limit (w_batch w)) (indices_limit (w_batch w)))
              \<lparr>not_batched := not_batched (w_batch (resetBatch w1)),
               material := material (w_batch (resetBatch w1)),
               batch_mesh := batch_mesh (w_batch (resetBatch w1))\<rparr>"
    using empty unfolding w1 isRenderModified_eq
    by (simp add: resetBatch_def clearData_def Batch_def)
  moreover have "w_freed (resetBatch w1) = w_freed w + 1"
    unfolding w1 isRenderModified_eq by (simp add: resetBatch_def)
  moreover have "\<forall>p\<in>set (render_data_set (w_batch w)).
              \<not> rd_batching (w_heap (resetBatch w1) p) \<and> rd_batch (w_heap (resetBatch w1) p) = None"
    using all_gone unfolding w1 isRenderModified_eq by (simp add: resetBatch_def)
  moreover have "renderdata (w_batch (resetBatch w1)) = None"
    "render_data_set (w_batch (resetBatch w1)) = []"
    using empty by (simp_all add: resetBatch_def clearData_def)
  ultimately show ?thesis
    using run by (intro exI [of _ "resetBatch w1"]) simp
qed

theorem setupMesh_empties_witness:
  "\<exists>w'. setupMesh False (disable 0 (projr (adds [0] (world0 6 10 scene)))) = Inr (False, w') \<and>
     w_freed w' = 1 \<and> vertices (w_batch w') = [] \<and> draw_count (w_batch w') = 0 \<and>
     renderdata (w_batch w') = None \<and> rd_batching (w_heap w' 0) = False"
proof -
  let ?w = "disable 0 (projr (adds [0] (world0 6 10 scene)))"
  have pre: "render_data_set (w_batch (snd (isRenderModified ?w))) = []"
    "w_freed ?w = 0" "render_data_set (w_batch ?w) = [0]"
    by (simp_all add: eval_defs frame_defs)
  from setupMesh_empties [OF pre(1), of False] obtain w' where
    w': "setupMesh False ?w = Inr (False, w')" "w_freed w' = w_freed ?w + 1"
      "w_batch w' = (Batch (vertex_limit (w_batch ?w)) (indices_limit (w_batch ?w)))
              \<lparr>not_batched := not_batched (w_batch w'), material := material (w_batch w'),
               batch_mesh := batch_mesh (w_batch w')\<rparr>"
      "renderdata (w_batch w') = None"
      "\<forall>p\<in>set (render_data_set (w_batch ?w)). \<not> rd_batching (w_heap w' p) \<and> rd_batch (w_heap w' p) = None"
    by blast
  have "vertices (w_batch w') = []" "draw_count (w_batch w') = 0"
    by (subst w'(3), simp add: Batch_def)+
  with w' pre show ?thesis by (intro exI [of _ w']) simp
qed

text \<open>
  C7 as stated fails: a batch whose only member had opted out of batching is reset with
  \<open>not_batched\<close> still set, which a newly constructed batch does not have.
\<close>

theorem setupMesh_reset_not_fresh:
  "\<not> isl (setupMesh False (disable 2 (projr (adds [2] (world0 6 10 scene))))) \<and>
   \<not> fst (projr (setupMesh False (disable 2 (projr (adds [2] (world0 6 10 scene)))))) \<and>
   vertex_limit (w_batch (snd (projr (setupMesh False (disable 2 (projr (adds [2] (world0 6 10 scene)))))))) = 6 \<and>
   indices_limit (w_batch (snd (projr (setupMesh False (disable 2 (projr (adds [2] (world0 6 10 scene)))))))) = 10 \<and>
   not_batched (w_batch (snd (projr (setupMesh False (disable 2 (projr (adds [2] (world0 6 10 scene)))))))) \<and>
   \<not> not_batched (Batch 6 10) \<and>
   w_batch (snd (projr (setupMesh False (disable 2 (projr (adds [2] (world0 6 10 scene))))))) \<noteq> Batch 6 10"
proof -
  let ?b = "w_batch (snd (projr (setupMesh False (disable 2 (projr (adds [2] (world0 6 10 scene)))))))"
  have nb: "not_batched ?b" and fresh: "\<not> not_batched (Batch 6 10)"
    by (simp_all add: eval_defs frame_defs)
  then have "?b \<noteq> Batch 6 10"
    by auto
  moreover have "\<not> isl (setupMesh False (disable 2 (projr (adds [2] (world0 6 10 scene)))))"
    "\<not> fst (projr (setupMesh False (disable 2 (projr (adds [2] (world0 6 10 scene))))))"
    "vertex_limit ?b = 6" "indices_limit ?b = 10"
    by (simp_all add: eval_defs frame_defs)
  ultimately show ?thesis using nb fresh by simp
qed

text \<open>
  The members \<^verbatim>\<open>mesh_\<close> and \<^verbatim>\<open>material_\<close> after a reset: the mesh built in an earlier
  call and the material of the last render data offered are still there.
\<close>

lemma resetBatch_keeps_mesh:
  "\<not> isl (setupMesh False (projr (adds [0] (world0 6 10 scene)))) \<and>
   \<not> isl (setupMesh False (disable 0 (snd (projr (setupMesh False (projr (adds [0] (world0 6 10 scene)))))))) \<and>
   \<not> fst (projr (setupMesh False (disable 0 (snd (projr (setupMesh False (projr (adds [0] (world0 6 10 scene))))))))) \<and>
   m_vertices (batch_mesh (w_batch (snd (projr (setupMesh False
      (disable 0 (snd (projr (setupMesh False (projr (adds [0] (world0 6 10 scene)))))))))))) = m_vertices quad \<and>
   material (w_batch (snd (projr (setupMesh False
      (disable 0 (snd (projr (setupMesh False (projr (adds [0] (world0 6 10 scene))))))))))) =
     Some \<lparr>mat_ptr = 0, shader_type = TEXTURE_SHADER\<rparr>"
  by (simp add: eval_defs frame_defs)

lemma setupMesh_clean:
  assumes en: "\<forall>p\<in>set (render_data_set (w_batch w)). rd_enabled (w_heap w p) \<and> owner_enabled (w_heap w p)"
    and ne: "render_data_set (w_batch w) \<noteq> []"
    and mi: "mesh_init (w_batch w)" and nd: "\<not> batch_dirty (w_batch w)"
  shows "setupMesh False w = Inr (True, w)"
proof -
  have irm: "isRenderModified w = (False, w)"
    by (simp add: isRenderModified_def evict_loop_all_enabled [OF en])
  have "(w_batch w)\<lparr>batch_dirty := batch_dirty (w_batch w)\<rparr> = w_batch w"
    by simp
  with nd have "(w_batch w)\<lparr>batch_dirty := False\<rparr> = w_batch w"
    by simp
  with ne mi show ?thesis
    by (simp add: setupMesh_def irm Let_def)
qed

lemma setupMesh_active_post:
  assumes run: "setupMesh d w = Inr (True, w1)"
  shows "(\<forall>p\<in>set (render_data_set (w_batch w1)). rd_enabled (w_heap w1 p) \<and> owner_enabled (w_heap w1 p)) \<and>
         render_data_set (w_batch w1) \<noteq> [] \<and> mesh_init (w_batch w1) \<and> \<not> batch_dirty (w_batch w1)"
proof -
  define kept where "kept = filter (\<lambda>p. rd_enabled (w_heap w p) \<and> owner_enabled (w_heap w p))
                        (render_data_set (w_batch w))"
  define h' where "h' = (\<lambda>p. if p \<in> set (render_data_set (w_batch w)) \<and>
                          (\<not> rd_enabled (w_heap w p) \<or> \<not> owner_enabled (w_heap w p))
                       then (w_heap w p)\<lparr>rd_batching := False, rd_batch := None\<rparr>
                       else w_heap w p)"
  define w0 where "w0 = w\<lparr>w_batch := (w_batch w)\<lparr>render_data_set := kept\<rparr>, w_heap := h'\<rparr>"
  obtain u where irm: "isRenderModified w = (u, w0)"
    by (simp add: isRenderModified_eq w0_def h'_def kept_def)
  have w0: "render_data_set (w_batch w0) = kept" "w_heap w0 = h'"
    by (simp_all add: w0_def)
  let ?regen = "if d \<or> u then regenerateMeshData h' (w_batch w0) else Inr (w_batch w0)"
  have sm: "setupMesh d w =
      (if kept = [] then Inr (False, resetBatch w0)
       else (case ?regen of Inl f \<Rightarrow> Inl f
             | Inr b2 \<Rightarrow> Inr (True, w0\<lparr>w_batch :=
                 (if \<not> mesh_init (b2\<lparr>batch_dirty := False\<rparr>)
                  then meshInit (b2\<lparr>batch_dirty := False\<rparr>)
                  else b2\<lparr>batch_dirty := False\<rparr>)\<rparr>)))"
    by (simp add: setupMesh_def irm w0 Let_def split: sum.splits)
  from run sm have ne: "kept \<noteq> []"
    by (auto split: if_splits)
  have en: "rd_enabled (h' p) \<and> owner_enabled (h' p)" if "p \<in> set kept" for p
    using that by (auto simp: kept_def h'_def)
  from run sm ne obtain b2 where
    b2: "?regen = Inr b2"
    and w1: "w1 = w0\<lparr>w_batch := (if \<not> mesh_init (b2\<lparr>batch_dirty := False\<rparr>)
                               then meshInit (b2\<lparr>batch_dirty := False\<rparr>)
                               else b2\<lparr>batch_dirty := False\<rparr>)\<rparr>"
    by (cases ?regen) auto
  have set2: "render_data_set b2 = kept"
  proof (cases "d \<or> u")
    case True
    with b2 have "regenerateMeshData h' (w_batch w0) = Inr b2" by simp
    from regenerateMeshData_Inr [OF this refl, of 0 0] show ?thesis
      by (simp add: w0)
  next
    case False
    with b2 show ?thesis by (auto simp: w0)
  qed
  have "render_data_set (w_batch w1) = kept" "mesh_init (w_batch w1)" "\<not> batch_dirty (w_batch w1)"
    "w_heap w1 = h'"
    using set2 by (auto simp: w1 meshInit_def Let_def w0)
  with ne en show ?thesis by simp
qed

text \<open>
  C8 (amended). If a call of \<^verbatim>\<open>setupMesh\<close> reports active, then \<open>mesh_init\<close> is set,
  and a second call with the dirty argument false on the state it left reports active and
  leaves that state as it is: nothing is regenerated, the mesh is not rebuilt, and
  \<open>mesh_init\<close> stays set.
\<close>

theorem setupMesh_twice:
  assumes "setupMesh d w = Inr (True, w1)"
  shows "mesh_init (w_batch w1) \<and> setupMesh False w1 = Inr (True, w1)"
proof -
  note post = setupMesh_active_post [OF assms]
  from post have "setupMesh False w1 = Inr (True, w1)"
    by (intro setupMesh_clean) simp_all
  with post show ?thesis by simp
qed

theorem setupMesh_twice_witness:
  "\<exists>w1. setupMesh False (projr (adds [0] (world0 6 10 scene))) = Inr (True, w1) \<and>
     setupMesh False w1 = Inr (True, w1) \<and> mesh_init (w_batch w1) \<and>
     length (m_vertices (batch_mesh (w_batch w1))) = 4"
proof -
  let ?w = "projr (adds [0] (world0 6 10 scene))"
  have "\<not> isl (setupMesh False ?w)" and "fst (projr (setupMesh False ?w))"
    and "length (m_vertices (batch_mesh (w_batch (snd (projr (setupMesh False ?w)))))) = 4"
    by (simp_all add: eval_defs frame_defs)
  then obtain w1 where run: "setupMesh False ?w = Inr (True, w1)"
    and len: "length (m_vertices (batch_mesh (w_batch w1))) = 4"
    by (cases "setupMesh False ?w") auto
  from setupMesh_twice [OF run] run len show ?thesis
    by (intro exI [of _ w1]) simp
qed

text \<open>
  C8 as stated fails for a batch that the first call empties: both calls reset it, the
  second one notifies the pool owner again, and \<open>mesh_init\<close> is false after it.
\<close>

theorem setupMesh_twice_empty:
  "\<not> isl (setupMesh False (disable 0 (projr (adds [0] (world0 6 10 scene))))) \<and>
   \<not> isl (setupMesh False (snd (projr (setupMesh False (disable 0 (projr (adds [0] (world0 6 10 scene)))))))) \<and>
   \<not> mesh_init (w_batch (snd (projr (setupMesh False
       (snd (projr (setupMesh False (disable 0 (projr (adds [0] (world0 6 10 scene))))))))))) \<and>
   w_freed (snd (projr (setupMesh False
       (snd (projr (setupMesh False (disable 0 (projr (adds [0] (world0 6 10 scene)))))))))) = 2"
  by (simp add: eval_defs frame_defs)

end
